theory Spec2Isabelle
  imports Complex_Main
begin

section \<open>Data model of the camera overlay (src/components/CameraView.tsx)\<close>

text \<open>
  The component keeps five \<open>useState\<close> cells and two \<open>useRef\<close> cells.  The browser
  objects they point to (media streams, the video element, the canvas) are modelled by the
  attributes the component reads or writes.
\<close>

datatype facing = User | Environment

type_synonym pixel = nat

record media_stream =
  stream_id :: nat
  tracks :: "nat list"

record video =
  srcObject :: "media_stream option"
  videoWidth :: nat
  videoHeight :: nat
  frame :: "nat \<Rightarrow> nat \<Rightarrow> pixel"

text \<open>
  The 2D context of the canvas: the component only ever calls \<open>translate\<close> and \<open>scale\<close>,
  so the current transformation is \<open>x' = m_a * x + m_e\<close>, \<open>y' = m_d * y + m_f\<close>.
\<close>

record transform =
  m_a :: int
  m_d :: int
  m_e :: int
  m_f :: int

datatype context_mode = NoContext | Context2D | OtherContext

record canvas =
  cwidth :: nat
  cheight :: nat
  mode :: context_mode
  ctm :: transform
  bitmap :: "nat \<Rightarrow> nat \<Rightarrow> pixel"

text \<open>Every call that leaves the component: browser APIs and the two props.\<close>

datatype effect =
    CallEnumerateDevices
  | CallGetUserMedia facing nat nat
  | CallTrackStop nat
  | CallConsoleError
  | CallOnClose
  | CallOnPhotoTaken string

record camera_view =
  stream :: "media_stream option"
  capturedImage :: "string option"
  facingMode :: facing
  error :: "string option"
  hasMultipleCameras :: bool
  videoRef :: "video option"
  canvasRef :: "canvas option"
  effect_stream :: "media_stream option"
  pending :: nat
  trace :: "effect list"

text \<open>
  \<open>effect_stream\<close> is the value of \<open>stream\<close> that the closures of the last run of the
  \<open>[facingMode]\<close> effect captured; \<open>pending\<close> counts the \<open>getUserMedia\<close> promises in
  flight; \<open>trace\<close> is the list of outgoing calls, oldest first.
\<close>

section \<open>The browser's canvas and video, as far as the component uses them\<close>

definition identity_transform :: transform where
  "identity_transform = \<lparr>m_a = 1, m_d = 1, m_e = 0, m_f = 0\<rparr>"

definition blank :: "nat \<Rightarrow> nat \<Rightarrow> pixel" where
  "blank = (\<lambda>x y. 0)"

text \<open>Assigning \<open>canvas.width\<close> or \<open>canvas.height\<close> clears the bitmap and resets the context.\<close>

definition set_width :: "nat \<Rightarrow> canvas \<Rightarrow> canvas" where
  "set_width n c = c\<lparr>cwidth := n, ctm := identity_transform, bitmap := blank\<rparr>"

definition set_height :: "nat \<Rightarrow> canvas \<Rightarrow> canvas" where
  "set_height n c = c\<lparr>cheight := n, ctm := identity_transform, bitmap := blank\<rparr>"

text \<open>\<open>getContext('2d')\<close> is null only on a canvas already bound to another context type.\<close>

definition getContext2d :: "canvas \<Rightarrow> canvas option" where
  "getContext2d c = (if mode c = OtherContext then None else Some (c\<lparr>mode := Context2D\<rparr>))"

definition translate :: "int \<Rightarrow> int \<Rightarrow> canvas \<Rightarrow> canvas" where
  "translate tx ty c =
     c\<lparr>ctm := (ctm c)\<lparr>m_e := m_e (ctm c) + m_a (ctm c) * tx,
                       m_f := m_f (ctm c) + m_d (ctm c) * ty\<rparr>\<rparr>"

definition scale :: "int \<Rightarrow> int \<Rightarrow> canvas \<Rightarrow> canvas" where
  "scale sx sy c =
     c\<lparr>ctm := (ctm c)\<lparr>m_a := m_a (ctm c) * sx, m_d := m_d (ctm c) * sy\<rparr>\<rparr>"

text \<open>
  Which source column (or row) lands on device column (row) \<open>X\<close>: the centre of the device
  pixel is taken back through the transformation and through the destination rectangle
  (origin \<open>d0\<close>, length \<open>dlen\<close>) to a source index below \<open>slen\<close>; nothing is drawn where
  the centre falls outside the rectangle.
\<close>

definition source_index :: "int \<Rightarrow> int \<Rightarrow> int \<Rightarrow> nat \<Rightarrow> nat \<Rightarrow> nat \<Rightarrow> nat option" where
  "source_index a e d0 dlen slen X =
     (if a = 0 \<or> dlen = 0 \<or> slen = 0 then None
      else let num = 2 * int X + 1 - 2 * e - 2 * a * d0;
               idx = (num * int slen) div (2 * a * int dlen)
           in if 0 \<le> idx \<and> idx < int slen then Some (nat idx) else None)"

definition drawImage :: "video \<Rightarrow> int \<Rightarrow> int \<Rightarrow> nat \<Rightarrow> nat \<Rightarrow> canvas \<Rightarrow> canvas" where
  "drawImage v dx dy dw dh c =
     c\<lparr>bitmap := (\<lambda>X Y.
          case source_index (m_a (ctm c)) (m_e (ctm c)) dx dw (videoWidth v) X of
            None \<Rightarrow> bitmap c X Y
          | Some i \<Rightarrow>
              (case source_index (m_d (ctm c)) (m_f (ctm c)) dy dh (videoHeight v) Y of
                 None \<Rightarrow> bitmap c X Y
               | Some j \<Rightarrow> frame v i j))\<rparr>"

text \<open>The bitmap as rows of pixels, top row first: what the encoder is given.\<close>

definition pixels :: "canvas \<Rightarrow> pixel list list" where
  "pixels c = map (\<lambda>Y. map (\<lambda>X. bitmap c X Y) [0..<cwidth c]) [0..<cheight c]"

text \<open>
  The image encoder of the browser is a parameter: it maps the requested type, the quality
  and the rows of pixels to the base64 payload.  A canvas without pixels gives \<open>data:,\<close>.
\<close>

type_synonym encoder = "string \<Rightarrow> real \<Rightarrow> pixel list list \<Rightarrow> string"

definition toDataURL :: "encoder \<Rightarrow> string \<Rightarrow> real \<Rightarrow> canvas \<Rightarrow> string" where
  "toDataURL enc type quality c =
     (if cwidth c = 0 \<or> cheight c = 0 then ''data:,''
      else ''data:'' @ type @ '';base64,'' @ enc type quality (pixels c))"

text \<open>A freshly mounted \<open>video\<close> element has no source and no intrinsic size.\<close>

definition new_video :: video where
  "new_video = \<lparr>srcObject = None, videoWidth = 0, videoHeight = 0, frame = blank\<rparr>"

text \<open>A freshly mounted \<open>canvas\<close> element has the default size of 300 by 150.\<close>

definition new_canvas :: canvas where
  "new_canvas = \<lparr>cwidth = 300, cheight = 150, mode = NoContext,
                  ctm = identity_transform, bitmap = blank\<rparr>"

section \<open>The component\<close>

definition initial :: camera_view where
  "initial = \<lparr>stream = None, capturedImage = None, facingMode = User, error = None,
              hasMultipleCameras = False, videoRef = None, canvasRef = None,
              effect_stream = None, pending = 0, trace = []\<rparr>"

text \<open>JavaScript truthiness of a \<open>string | null\<close>: null and the empty string are falsy.\<close>

fun truthy :: "string option \<Rightarrow> bool" where
  "truthy None = False"
| "truthy (Some s) = (s \<noteq> [])"

subsection \<open>The two effects\<close>

definition devices_effect :: "camera_view \<Rightarrow> camera_view" where
  "devices_effect s = s\<lparr>trace := trace s @ [CallEnumerateDevices]\<rparr>"

definition devices_resolved :: "string list \<Rightarrow> camera_view \<Rightarrow> camera_view" where
  "devices_resolved kinds s =
     (if length (filter (\<lambda>k. k = ''videoinput'') kinds) > 1
      then s\<lparr>hasMultipleCameras := True\<rparr> else s)"

fun stop_tracks :: "media_stream option \<Rightarrow> effect list" where
  "stop_tracks None = []"
| "stop_tracks (Some ms) = map CallTrackStop (tracks ms)"

text \<open>
  Body of the \<open>[facingMode]\<close> effect.  \<open>stream\<close> is read from the render that scheduled
  the effect; the cleanup returned by the body captures the same value.
\<close>

definition facing_effect :: "camera_view \<Rightarrow> camera_view" where
  "facing_effect s =
     s\<lparr>trace := trace s @ stop_tracks (stream s) @ [CallGetUserMedia (facingMode s) 1280 720],
       pending := Suc (pending s),
       effect_stream := stream s\<rparr>"

definition facing_cleanup :: "camera_view \<Rightarrow> camera_view" where
  "facing_cleanup s = s\<lparr>trace := trace s @ stop_tracks (effect_stream s)\<rparr>"

definition permission_denied_message :: string where
  "permission_denied_message =
     ''Camera permission denied. Please enable it in your browser settings and refresh.''"

definition camera_unavailable_message :: string where
  "camera_unavailable_message =
     ''Could not access camera. Please make sure it'' @ [CHR 0x27] @
     ''s not being used by another app.''"

text \<open>The \<open>then\<close> callback; binding a new source restarts loading of the video.\<close>

definition stream_granted :: "media_stream \<Rightarrow> camera_view \<Rightarrow> camera_view" where
  "stream_granted ms s =
     s\<lparr>stream := Some ms,
       videoRef := map_option (\<lambda>v. v\<lparr>srcObject := Some ms, videoWidth := 0, videoHeight := 0\<rparr>)
                     (videoRef s),
       error := None\<rparr>"

text \<open>The value a promise rejects with: an \<open>Error\<close> instance with its name, or anything else.\<close>

datatype rejection = ErrorInstance string | NotAnError

fun stream_rejected :: "rejection \<Rightarrow> camera_view \<Rightarrow> camera_view" where
  "stream_rejected (ErrorInstance name) s =
     (if name = ''NotAllowedError''
      then s\<lparr>trace := trace s @ [CallConsoleError], error := Some permission_denied_message\<rparr>
      else s\<lparr>trace := trace s @ [CallConsoleError], error := Some camera_unavailable_message\<rparr>)"
| "stream_rejected NotAnError s = s\<lparr>trace := trace s @ [CallConsoleError]\<rparr>"

subsection \<open>The handlers\<close>

definition handleTakePhoto :: "encoder \<Rightarrow> camera_view \<Rightarrow> camera_view" where
  "handleTakePhoto enc s =
     (case videoRef s of
        None \<Rightarrow> s
      | Some video \<Rightarrow>
          (case canvasRef s of
             None \<Rightarrow> s
           | Some canvas \<Rightarrow>
               (let sized = set_height (videoHeight video) (set_width (videoWidth video) canvas)
                in case getContext2d sized of
                     None \<Rightarrow> s\<lparr>canvasRef := Some sized\<rparr>
                   | Some context \<Rightarrow>
                       (let flipped =
                              (if facingMode s = User
                               then scale (- 1) 1 (translate (int (cwidth context)) 0 context)
                               else context);
                            drawn = drawImage video 0 0 (cwidth flipped) (cheight flipped) flipped;
                            dataUrl = toDataURL enc ''image/jpeg'' (9 / 10) drawn
                        in s\<lparr>canvasRef := Some drawn, capturedImage := Some dataUrl\<rparr>))))"

definition handleConfirm :: "camera_view \<Rightarrow> camera_view" where
  "handleConfirm s =
     (case capturedImage s of
        None \<Rightarrow> s
      | Some img \<Rightarrow> if img \<noteq> [] then s\<lparr>trace := trace s @ [CallOnPhotoTaken img]\<rparr> else s)"

definition handleRetake :: "camera_view \<Rightarrow> camera_view" where
  "handleRetake s = s\<lparr>capturedImage := None\<rparr>"

definition handleSwitchCamera :: "camera_view \<Rightarrow> camera_view" where
  "handleSwitchCamera s =
     s\<lparr>facingMode := (if facingMode s = User then Environment else User)\<rparr>"

definition onClose :: "camera_view \<Rightarrow> camera_view" where
  "onClose s = s\<lparr>trace := trace s @ [CallOnClose]\<rparr>"

subsection \<open>Rendering\<close>

datatype view = ErrorView | CapturedView | LiveView

definition view_of :: "camera_view \<Rightarrow> view" where
  "view_of s =
     (if truthy (error s) then ErrorView
      else if truthy (capturedImage s) then CapturedView
      else LiveView)"

text \<open>The value a conditional of the JSX sees: the string when it is truthy.\<close>

fun truthy_value :: "string option \<Rightarrow> string option" where
  "truthy_value None = None"
| "truthy_value (Some s) = (if s = [] then None else Some s)"

text \<open>What fills the preview area: the nested conditional of the JSX.\<close>

datatype pane = ErrorPane string | ImagePane string | VideoPane

definition main_pane :: "camera_view \<Rightarrow> pane" where
  "main_pane s =
     (case truthy_value (error s) of
        Some msg \<Rightarrow> ErrorPane msg
      | None \<Rightarrow>
          (case truthy_value (capturedImage s) of
             Some img \<Rightarrow> ImagePane img
           | None \<Rightarrow> VideoPane))"

text \<open>The buttons on screen, in document order, and the handler each one is wired to.\<close>

datatype button = GoBack | Retake | UsePhoto | Shutter | SwitchCamera | CloseX

datatype handler =
  PropOnClose | HandleRetake | HandleConfirm | HandleTakePhoto | HandleSwitchCamera

fun onClick :: "button \<Rightarrow> handler" where
  "onClick GoBack = PropOnClose"
| "onClick Retake = HandleRetake"
| "onClick UsePhoto = HandleConfirm"
| "onClick Shutter = HandleTakePhoto"
| "onClick SwitchCamera = HandleSwitchCamera"
| "onClick CloseX = PropOnClose"

definition buttons :: "camera_view \<Rightarrow> button list" where
  "buttons s =
     (if truthy (error s) then [GoBack]
      else if truthy (capturedImage s) then [Retake, UsePhoto]
      else [Shutter] @ (if hasMultipleCameras s then [SwitchCamera] else []))
     @ (if \<not> truthy (capturedImage s) \<and> \<not> truthy (error s) then [CloseX] else [])"

fun invoke :: "encoder \<Rightarrow> handler \<Rightarrow> camera_view \<Rightarrow> camera_view" where
  "invoke enc PropOnClose s = onClose s"
| "invoke enc HandleRetake s = handleRetake s"
| "invoke enc HandleConfirm s = handleConfirm s"
| "invoke enc HandleTakePhoto s = handleTakePhoto enc s"
| "invoke enc HandleSwitchCamera s = handleSwitchCamera s"

subsection \<open>Committing a render\<close>

text \<open>
  The \<open>video\<close> element exists only in the live branch, so React clears \<open>videoRef\<close> when the
  branch goes away and points it to a new element when the branch comes back.
\<close>

definition sync_refs :: "camera_view \<Rightarrow> camera_view" where
  "sync_refs s =
     (if view_of s = LiveView
      then (case videoRef s of None \<Rightarrow> s\<lparr>videoRef := Some new_video\<rparr> | Some v \<Rightarrow> s)
      else s\<lparr>videoRef := None\<rparr>)"

text \<open>
  After a render whose \<open>facingMode\<close> differs from the previous one, React runs the cleanup
  of the previous run of the effect and then the body again.
\<close>

definition commit :: "camera_view \<Rightarrow> camera_view \<Rightarrow> camera_view" where
  "commit old new =
     (if facingMode new \<noteq> facingMode old
      then facing_effect (facing_cleanup (sync_refs new))
      else sync_refs new)"

definition mount :: camera_view where
  "mount = facing_effect (devices_effect
             (initial\<lparr>videoRef := Some new_video, canvasRef := Some new_canvas\<rparr>))"

subsection \<open>Events\<close>

text \<open>
  What can happen to a mounted component: a promise settles, the bound video shows a frame
  of some size, or the user clicks a button that is on screen.
\<close>

datatype event =
    DevicesResolved "string list"
  | StreamGranted media_stream
  | StreamRejected rejection
  | VideoFrame nat nat "nat \<Rightarrow> nat \<Rightarrow> pixel"
  | Click button

definition video_frame :: "nat \<Rightarrow> nat \<Rightarrow> (nat \<Rightarrow> nat \<Rightarrow> pixel) \<Rightarrow> camera_view \<Rightarrow> camera_view" where
  "video_frame w h f s =
     (case videoRef s of
        None \<Rightarrow> s
      | Some v \<Rightarrow>
          (case srcObject v of
             None \<Rightarrow> s
           | Some ms \<Rightarrow> s\<lparr>videoRef := Some (v\<lparr>videoWidth := w, videoHeight := h, frame := f\<rparr>)\<rparr>))"

fun step :: "encoder \<Rightarrow> camera_view \<Rightarrow> event \<Rightarrow> camera_view" where
  "step enc s (DevicesResolved kinds) = commit s (devices_resolved kinds s)"
| "step enc s (StreamGranted ms) =
     (case pending s of
        0 \<Rightarrow> s
      | Suc n \<Rightarrow> commit s (stream_granted ms (s\<lparr>pending := n\<rparr>)))"
| "step enc s (StreamRejected r) =
     (case pending s of
        0 \<Rightarrow> s
      | Suc n \<Rightarrow> commit s (stream_rejected r (s\<lparr>pending := n\<rparr>)))"
| "step enc s (VideoFrame w h f) = video_frame w h f s"
| "step enc s (Click b) =
     (if b \<in> set (buttons s) then commit s (invoke enc (onClick b) s) else s)"

definition run :: "encoder \<Rightarrow> event list \<Rightarrow> camera_view" where
  "run enc evs = foldl (step enc) mount evs"

text \<open>The stills that the capture actions of a run produced, oldest first.\<close>

fun captured_by :: "encoder \<Rightarrow> camera_view \<Rightarrow> event \<Rightarrow> string list" where
  "captured_by enc s (Click Shutter) =
     (if Shutter \<in> set (buttons s) \<and> capturedImage (handleTakePhoto enc s) \<noteq> capturedImage s
      then (case capturedImage (handleTakePhoto enc s) of None \<Rightarrow> [] | Some img \<Rightarrow> [img])
      else [])"
| "captured_by enc s e = []"

fun stills_from :: "encoder \<Rightarrow> camera_view \<Rightarrow> event list \<Rightarrow> string list" where
  "stills_from enc s [] = []"
| "stills_from enc s (e # es) = captured_by enc s e @ stills_from enc (step enc s e) es"

definition stills :: "encoder \<Rightarrow> event list \<Rightarrow> string list" where
  "stills enc evs = stills_from enc mount evs"

subsection \<open>Reachable states\<close>

text \<open>
  What every state of a run satisfies: the two optional strings are never the empty string,
  the \<open>video\<close> element is mounted exactly in the live view, and the canvas is mounted and
  hands out its 2D context.
\<close>

definition well_formed :: "camera_view \<Rightarrow> bool" where
  "well_formed s =
     (error s \<noteq> Some [] \<and> capturedImage s \<noteq> Some [] \<and>
      (videoRef s \<noteq> None) = (view_of s = LiveView) \<and>
      (case canvasRef s of None \<Rightarrow> False | Some c \<Rightarrow> mode c \<noteq> OtherContext))"

subsection \<open>Sample inputs\<close>

text \<open>An encoder that answers with the same payload for every bitmap, two cameras, three
  streams of one video track each, and a frame whose pixel at \<open>(x, y)\<close> is \<open>10 * y + x\<close>.\<close>

definition sample_encoder :: encoder where
  "sample_encoder = (\<lambda>type quality rows. ''/9j/'')"

definition two_cameras :: "string list" where
  "two_cameras = [''videoinput'', ''audioinput'', ''videoinput'']"

definition stream_a :: media_stream where
  "stream_a = \<lparr>stream_id = 1, tracks = [11]\<rparr>"

definition stream_b :: media_stream where
  "stream_b = \<lparr>stream_id = 2, tracks = [22]\<rparr>"

definition stream_c :: media_stream where
  "stream_c = \<lparr>stream_id = 3, tracks = [33]\<rparr>"

definition sample_frame :: "nat \<Rightarrow> nat \<Rightarrow> pixel" where
  "sample_frame = (\<lambda>x y. 10 * y + x)"

section \<open>What a capture draws\<close>


lemma source_index_plain: "X < w \<Longrightarrow> source_index 1 0 0 w w X = Some X"
proof -
  assume lt: "X < w"
  then have w: "int w \<noteq> 0" by simp
  have "((2 * int X + 1) * int w) div (2 * int w) = (2 * int X + 1) div 2"
    using w by simp
  also have "\<dots> = int X" by simp
  finally show ?thesis using lt by (simp add: source_index_def)
qed

lemma source_index_flipped: "X < w \<Longrightarrow> source_index (- 1) (int w) 0 w w X = Some (w - 1 - X)"
proof -
  assume lt: "X < w"
  then have w: "int w \<noteq> 0" by simp
  have "((2 * int X + 1 - 2 * int w) * int w) div (- 2 * int w) = (2 * int X + 1 - 2 * int w) div (- 2)"
    using div_mult_mult2[of "int w" "2 * int X + 1 - 2 * int w" "- 2"] w by simp
  also have "\<dots> = int w - 1 - int X" by presburger
  finally have idx: "((2 * int X + 1 - 2 * int w) * int w) div (- (2 * int w)) = int (w - 1 - X)"
    using lt by simp
  show ?thesis using lt idx by (simp add: source_index_def Let_def)
qed

lemma pixels_pointwise:
  assumes "\<And>X Y. X < cwidth c \<Longrightarrow> Y < cheight c \<Longrightarrow> bitmap c X Y = f X Y"
  shows "pixels c = map (\<lambda>Y. map (\<lambda>X. f X Y) [0..<cwidth c]) [0..<cheight c]"
  using assms by (simp add: pixels_def)

lemma take_photo_environment:
  assumes "videoRef s = Some v" and "canvasRef s = Some c" and "mode c \<noteq> OtherContext"
    and "facingMode s = Environment"
  obtains cv where
    "handleTakePhoto enc s =
       s\<lparr>canvasRef := Some cv,
         capturedImage := Some (toDataURL enc ''image/jpeg'' (9 / 10) cv)\<rparr>"
    and "cwidth cv = videoWidth v" and "cheight cv = videoHeight v"
    and "ctm cv = identity_transform"
    and "pixels cv = map (\<lambda>Y. map (\<lambda>X. frame v X Y) [0..<videoWidth v]) [0..<videoHeight v]"
proof -
  define sized where "sized = (set_height (videoHeight v) (set_width (videoWidth v) c))\<lparr>mode := Context2D\<rparr>"
  define cv where "cv = drawImage v 0 0 (videoWidth v) (videoHeight v) sized"
  have dims: "cwidth sized = videoWidth v" "cheight sized = videoHeight v"
    "ctm sized = identity_transform"
    by (simp_all add: sized_def set_height_def set_width_def)
  have 1: "handleTakePhoto enc s =
       s\<lparr>canvasRef := Some cv,
         capturedImage := Some (toDataURL enc ''image/jpeg'' (9 / 10) cv)\<rparr>"
    using assms
    by (simp add: handleTakePhoto_def getContext2d_def Let_def cv_def sized_def
        set_height_def set_width_def)
  have 2: "cwidth cv = videoWidth v" "cheight cv = videoHeight v" "ctm cv = identity_transform"
    using dims by (simp_all add: cv_def drawImage_def)
  have "\<And>X Y. X < cwidth cv \<Longrightarrow> Y < cheight cv \<Longrightarrow> bitmap cv X Y = frame v X Y"
    using dims
    by (simp add: cv_def drawImage_def identity_transform_def source_index_plain)
  then have 3: "pixels cv = map (\<lambda>Y. map (\<lambda>X. frame v X Y) [0..<videoWidth v]) [0..<videoHeight v]"
    using pixels_pointwise[of cv "frame v"] 2 by simp
  show thesis using that 1 2 3 by blast
qed

lemma take_photo_user:
  assumes "videoRef s = Some v" and "canvasRef s = Some c" and "mode c \<noteq> OtherContext"
    and "facingMode s = User"
  obtains cv where
    "handleTakePhoto enc s =
       s\<lparr>canvasRef := Some cv,
         capturedImage := Some (toDataURL enc ''image/jpeg'' (9 / 10) cv)\<rparr>"
    and "cwidth cv = videoWidth v" and "cheight cv = videoHeight v"
    and "ctm cv = \<lparr>m_a = - 1, m_d = 1, m_e = int (videoWidth v), m_f = 0\<rparr>"
    and "pixels cv =
           map (\<lambda>Y. map (\<lambda>X. frame v (videoWidth v - 1 - X) Y) [0..<videoWidth v])
             [0..<videoHeight v]"
proof -
  define sized where "sized = (set_height (videoHeight v) (set_width (videoWidth v) c))\<lparr>mode := Context2D\<rparr>"
  define flipped where "flipped = scale (- 1) 1 (translate (int (videoWidth v)) 0 sized)"
  define cv where "cv = drawImage v 0 0 (videoWidth v) (videoHeight v) flipped"
  have dims: "cwidth flipped = videoWidth v" "cheight flipped = videoHeight v"
    "ctm flipped = \<lparr>m_a = - 1, m_d = 1, m_e = int (videoWidth v), m_f = 0\<rparr>"
    by (simp_all add: flipped_def sized_def set_height_def set_width_def scale_def
        translate_def identity_transform_def)
  have 1: "handleTakePhoto enc s =
       s\<lparr>canvasRef := Some cv,
         capturedImage := Some (toDataURL enc ''image/jpeg'' (9 / 10) cv)\<rparr>"
    using assms
    by (simp add: handleTakePhoto_def getContext2d_def Let_def cv_def flipped_def sized_def
        set_height_def set_width_def scale_def translate_def)
  have 2: "cwidth cv = videoWidth v" "cheight cv = videoHeight v"
    "ctm cv = \<lparr>m_a = - 1, m_d = 1, m_e = int (videoWidth v), m_f = 0\<rparr>"
    using dims by (simp_all add: cv_def drawImage_def)
  have "\<And>X Y. X < cwidth cv \<Longrightarrow> Y < cheight cv \<Longrightarrow>
          bitmap cv X Y = frame v (videoWidth v - 1 - X) Y"
    using dims
    by (simp add: cv_def drawImage_def source_index_plain source_index_flipped)
  then have 3: "pixels cv =
           map (\<lambda>Y. map (\<lambda>X. frame v (videoWidth v - 1 - X) Y) [0..<videoWidth v])
             [0..<videoHeight v]"
    using pixels_pointwise[of cv "\<lambda>X Y. frame v (videoWidth v - 1 - X) Y"] 2 by simp
  show thesis using that 1 2 3 by blast
qed


section \<open>Invariants of a run\<close>

lemma run_snoc: "run enc (evs @ [e]) = step enc (run enc evs) e"
  by (simp add: run_def)

lemma stills_from_append:
  "stills_from enc s (evs @ evs') =
   stills_from enc s evs @ stills_from enc (foldl (step enc) s evs) evs'"
  by (induction evs arbitrary: s) simp_all

lemma stills_snoc: "stills enc (evs @ [e]) = stills enc evs @ captured_by enc (run enc evs) e"
  by (simp add: stills_def run_def stills_from_append)

lemma toDataURL_nonempty: "toDataURL enc ty q c \<noteq> []"
  by (simp add: toDataURL_def)

lemma well_formed_mount: "well_formed mount"
  by (simp add: well_formed_def mount_def initial_def facing_effect_def devices_effect_def
      view_of_def new_canvas_def)

lemma well_formed_commit:
  assumes "error new \<noteq> Some []" and "capturedImage new \<noteq> Some []"
    and "canvasRef new = Some c" and "mode c \<noteq> OtherContext"
  shows "well_formed (commit old new)"
  using assms
  by (auto simp: well_formed_def commit_def sync_refs_def facing_effect_def facing_cleanup_def
      view_of_def split: option.splits)

lemma take_photo_keeps:
  assumes "canvasRef s = Some c" and "mode c \<noteq> OtherContext"
  shows "error (handleTakePhoto enc s) = error s"
    and "capturedImage (handleTakePhoto enc s) = capturedImage s \<or>
         (\<exists>img. img \<noteq> [] \<and> capturedImage (handleTakePhoto enc s) = Some img)"
    and "\<exists>c'. canvasRef (handleTakePhoto enc s) = Some c' \<and> mode c' \<noteq> OtherContext"
    and "trace (handleTakePhoto enc s) = trace s"
    and "facingMode (handleTakePhoto enc s) = facingMode s"
  using assms
  by (auto simp: handleTakePhoto_def getContext2d_def Let_def set_height_def set_width_def
      drawImage_def scale_def translate_def toDataURL_nonempty split: option.splits)

lemma well_formed_invoke:
  assumes "well_formed s"
  shows "well_formed (commit s (invoke enc h s))"
proof -
  obtain c where c: "canvasRef s = Some c" "mode c \<noteq> OtherContext"
    using assms by (auto simp: well_formed_def split: option.splits)
  have e: "error s \<noteq> Some []" and i: "capturedImage s \<noteq> Some []"
    using assms by (simp_all add: well_formed_def)
  show ?thesis
  proof (cases h)
    case HandleTakePhoto
    obtain c' where "canvasRef (handleTakePhoto enc s) = Some c'" "mode c' \<noteq> OtherContext"
      using take_photo_keeps(3)[OF c] by blast
    moreover have "error (handleTakePhoto enc s) \<noteq> Some []"
      using take_photo_keeps(1)[OF c] e by simp
    moreover have "capturedImage (handleTakePhoto enc s) \<noteq> Some []"
      using take_photo_keeps(2)[OF c, of enc] i by auto
    ultimately show ?thesis using HandleTakePhoto by (simp add: well_formed_commit)
  next
    case PropOnClose
    then show ?thesis using c e i by (simp add: well_formed_commit onClose_def)
  next
    case HandleRetake
    then show ?thesis using c e i by (simp add: well_formed_commit handleRetake_def)
  next
    case HandleConfirm
    then show ?thesis using c e i
      by (auto simp: handleConfirm_def split: option.splits intro!: well_formed_commit)
  next
    case HandleSwitchCamera
    then show ?thesis using c e i by (simp add: well_formed_commit handleSwitchCamera_def)
  qed
qed

lemma messages_nonempty:
  "permission_denied_message \<noteq> []" "camera_unavailable_message \<noteq> []"
  by (simp_all add: permission_denied_message_def camera_unavailable_message_def)

lemma well_formed_step:
  assumes "well_formed s"
  shows "well_formed (step enc s e)"
proof -
  obtain c where c: "canvasRef s = Some c" "mode c \<noteq> OtherContext"
    using assms by (auto simp: well_formed_def split: option.splits)
  have e: "error s \<noteq> Some []" and i: "capturedImage s \<noteq> Some []"
    using assms by (simp_all add: well_formed_def)
  show ?thesis
  proof (cases e)
    case (DevicesResolved kinds)
    then show ?thesis using c e i by (simp add: well_formed_commit devices_resolved_def)
  next
    case (StreamGranted ms)
    then show ?thesis using c e i assms
      by (auto simp: stream_granted_def split: nat.splits intro!: well_formed_commit)
  next
    case (StreamRejected r)
    then show ?thesis using c e i assms
      by (cases r) (auto simp: messages_nonempty split: nat.splits intro!: well_formed_commit)
  next
    case (VideoFrame w h f)
    then show ?thesis using assms
      by (auto simp: video_frame_def well_formed_def view_of_def split: option.splits if_splits)
  next
    case (Click b)
    then show ?thesis using assms by (simp add: well_formed_invoke)
  qed
qed

lemma well_formed_run: "well_formed (run enc evs)"
  by (induction evs rule: rev_induct) (simp_all add: run_snoc well_formed_step, simp add: run_def well_formed_mount)


lemma commit_fields:
  "capturedImage (commit old new) = capturedImage new"
  "error (commit old new) = error new"
  "stream (commit old new) = stream new"
  "facingMode (commit old new) = facingMode new"
  "hasMultipleCameras (commit old new) = hasMultipleCameras new"
  "canvasRef (commit old new) = canvasRef new"
  by (simp_all add: commit_def sync_refs_def facing_effect_def facing_cleanup_def
      split: option.splits)

lemma commit_trace:
  "trace (commit old new) =
     trace new @
     (if facingMode new \<noteq> facingMode old
      then stop_tracks (effect_stream new) @ stop_tracks (stream new) @
           [CallGetUserMedia (facingMode new) 1280 720]
      else [])"
  by (simp add: commit_def sync_refs_def facing_effect_def facing_cleanup_def
      split: option.splits)

lemma photo_not_stop: "CallOnPhotoTaken img \<notin> set (stop_tracks st)"
  by (cases st) auto

lemma take_photo_image:
  "capturedImage (handleTakePhoto enc s) = capturedImage s \<or>
   (\<exists>img. capturedImage (handleTakePhoto enc s) = Some img)"
  by (auto simp: handleTakePhoto_def Let_def split: option.splits)

lemma take_photo_trace: "trace (handleTakePhoto enc s) = trace s"
  by (auto simp: handleTakePhoto_def Let_def split: option.splits)

lemma step_captured:
  "capturedImage (step enc s e) = capturedImage s \<and> captured_by enc s e = []
   \<or> capturedImage (step enc s e) = None \<and> captured_by enc s e = []
   \<or> (\<exists>img. capturedImage (step enc s e) = Some img \<and> captured_by enc s e = [img])"
proof (cases e)
  case (DevicesResolved kinds)
  then show ?thesis by (simp add: commit_fields devices_resolved_def)
next
  case (StreamGranted ms)
  then show ?thesis by (simp add: commit_fields stream_granted_def split: nat.splits)
next
  case (StreamRejected r)
  then show ?thesis by (cases r) (simp_all add: commit_fields split: nat.splits)
next
  case (VideoFrame w h f)
  then show ?thesis by (simp add: video_frame_def split: option.splits)
next
  case (Click b)
  show ?thesis
  proof (cases b)
    case Shutter
    then show ?thesis using Click take_photo_image[of enc s]
      by (auto simp: commit_fields)
  next
    case Retake
    then show ?thesis using Click by (simp add: commit_fields handleRetake_def)
  next
    case UsePhoto
    then show ?thesis using Click
      by (simp add: commit_fields handleConfirm_def split: option.splits)
  next
    case GoBack
    then show ?thesis using Click by (simp add: commit_fields onClose_def)
  next
    case SwitchCamera
    then show ?thesis using Click by (simp add: commit_fields handleSwitchCamera_def)
  next
    case CloseX
    then show ?thesis using Click by (simp add: commit_fields onClose_def)
  qed
qed

lemma step_photo_calls:
  assumes "CallOnPhotoTaken img \<in> set (trace (step enc s e))"
  shows "CallOnPhotoTaken img \<in> set (trace s) \<or>
         (e = Click UsePhoto \<and> img \<noteq> [] \<and> capturedImage s = Some img)"
proof (cases e)
  case (DevicesResolved kinds)
  then show ?thesis using assms
    by (simp add: commit_trace devices_resolved_def photo_not_stop split: if_splits)
next
  case (StreamGranted ms)
  then show ?thesis using assms
    by (simp add: commit_trace stream_granted_def photo_not_stop split: nat.splits if_splits)
next
  case (StreamRejected r)
  then show ?thesis using assms
    by (cases r) (simp_all add: commit_trace photo_not_stop split: nat.splits if_splits)
next
  case (VideoFrame w h f)
  then show ?thesis using assms by (simp add: video_frame_def split: option.splits)
next
  case (Click b)
  show ?thesis
  proof (cases b)
    case Shutter
    then show ?thesis using Click assms
      by (simp add: commit_trace take_photo_trace photo_not_stop split: if_splits)
  next
    case Retake
    then show ?thesis using Click assms
      by (simp add: commit_trace handleRetake_def photo_not_stop split: if_splits)
  next
    case UsePhoto
    then show ?thesis using Click assms
      by (auto simp: commit_trace handleConfirm_def photo_not_stop
          split: if_splits option.splits)
  next
    case GoBack
    then show ?thesis using Click assms
      by (simp add: commit_trace onClose_def photo_not_stop split: if_splits)
  next
    case SwitchCamera
    then show ?thesis using Click assms
      by (simp add: commit_trace handleSwitchCamera_def photo_not_stop split: if_splits)
  next
    case CloseX
    then show ?thesis using Click assms
      by (simp add: commit_trace onClose_def photo_not_stop split: if_splits)
  qed
qed

lemma mount_plain: "capturedImage mount = None" "error mount = None"
  "trace mount = [CallEnumerateDevices, CallGetUserMedia User 1280 720]"
  by (simp_all add: mount_def initial_def facing_effect_def devices_effect_def)

lemma latest_still:
  "(truthy (capturedImage (run enc evs)) \<longrightarrow>
      stills enc evs \<noteq> [] \<and> capturedImage (run enc evs) = Some (last (stills enc evs))) \<and>
   (\<forall>img. CallOnPhotoTaken img \<in> set (trace (run enc evs)) \<longrightarrow>
      img \<noteq> [] \<and> img \<in> set (stills enc evs))"
proof (induction evs rule: rev_induct)
  case Nil
  show ?case by (simp add: run_def stills_def mount_plain)
next
  case (snoc e evs)
  let ?s = "run enc evs"
  have held: "truthy (capturedImage ?s) \<Longrightarrow>
      stills enc evs \<noteq> [] \<and> capturedImage ?s = Some (last (stills enc evs))"
    using snoc.IH by blast
  have called: "\<And>img. CallOnPhotoTaken img \<in> set (trace ?s) \<Longrightarrow>
      img \<noteq> [] \<and> img \<in> set (stills enc evs)"
    using snoc.IH by blast
  have a: "truthy (capturedImage (step enc ?s e)) \<longrightarrow>
      stills enc evs @ captured_by enc ?s e \<noteq> [] \<and>
      capturedImage (step enc ?s e) = Some (last (stills enc evs @ captured_by enc ?s e))"
    using step_captured[of enc ?s e] held by auto
  have b: "img \<noteq> [] \<and> img \<in> set (stills enc evs @ captured_by enc ?s e)"
    if "CallOnPhotoTaken img \<in> set (trace (step enc ?s e))" for img
  proof -
    from step_photo_calls[OF that]
    consider "CallOnPhotoTaken img \<in> set (trace ?s)"
      | "img \<noteq> []" "capturedImage ?s = Some img" by blast
    then show ?thesis
    proof cases
      case 1
      then show ?thesis using called by simp
    next
      case 2
      then have "truthy (capturedImage ?s)" by simp
      then have "stills enc evs \<noteq> []" "Some img = Some (last (stills enc evs))"
        using held 2 by simp_all
      then show ?thesis using 2 by (metis last_in_set option.inject UnCI set_append)
    qed
  qed
  show ?case using a b by (simp add: run_snoc stills_snoc)
qed

section \<open>Capture\<close>

lemmas component_defs =
  mount_def initial_def commit_def sync_refs_def facing_effect_def facing_cleanup_def
  devices_effect_def devices_resolved_def stream_granted_def video_frame_def buttons_def
  view_of_def handleTakePhoto_def handleConfirm_def handleRetake_def handleSwitchCamera_def
  onClose_def main_pane_def

lemmas browser_defs =
  new_video_def new_canvas_def set_width_def set_height_def getContext2d_def translate_def
  scale_def drawImage_def toDataURL_def identity_transform_def pixels_def source_index_def

lemmas sample_defs =
  sample_encoder_def two_cameras_def stream_a_def stream_b_def stream_c_def sample_frame_def

lemma shutter_only_live:
  "Shutter \<in> set (buttons s) \<longleftrightarrow> \<not> truthy (error s) \<and> \<not> truthy (capturedImage s)"
  by (simp add: buttons_def)

lemma falsy_None: "x \<noteq> Some [] \<Longrightarrow> \<not> truthy x \<Longrightarrow> x = None"
  by (cases x) simp_all

text \<open>
  C1, as amended.  In every state of a run in which the shutter button is on screen, no
  error is present and no still is held; the click then always stores a captured image and
  shows the review screen.  The image is the data URL of a surface of the video's width and
  height, whatever these are: when either is zero it is \<open>data:,\<close>.
\<close>

theorem capture_reachable_without_error:
  assumes "Shutter \<in> set (buttons (run enc evs))"
  shows "error (run enc evs) = None \<and> capturedImage (run enc evs) = None \<and>
         view_of (step enc (run enc evs) (Click Shutter)) = CapturedView \<and>
         (\<exists>v cv. videoRef (run enc evs) = Some v \<and>
            canvasRef (step enc (run enc evs) (Click Shutter)) = Some cv \<and>
            cwidth cv = videoWidth v \<and> cheight cv = videoHeight v \<and>
            capturedImage (step enc (run enc evs) (Click Shutter)) =
              Some (toDataURL enc ''image/jpeg'' (9 / 10) cv) \<and>
            (videoWidth v = 0 \<or> videoHeight v = 0 \<longrightarrow>
               capturedImage (step enc (run enc evs) (Click Shutter)) = Some ''data:,''))"
proof -
  let ?s = "run enc evs"
  have wf: "well_formed ?s" by (rule well_formed_run)
  have no_error: "error ?s = None" and no_still: "capturedImage ?s = None"
    using assms wf by (simp_all add: shutter_only_live well_formed_def falsy_None)
  then have "view_of ?s = LiveView" by (simp add: view_of_def)
  then obtain v where v: "videoRef ?s = Some v"
    using wf by (auto simp: well_formed_def)
  obtain c where c: "canvasRef ?s = Some c" "mode c \<noteq> OtherContext"
    using wf by (auto simp: well_formed_def split: option.splits)
  have "\<exists>cv. handleTakePhoto enc ?s =
            ?s\<lparr>canvasRef := Some cv,
               capturedImage := Some (toDataURL enc ''image/jpeg'' (9 / 10) cv)\<rparr> \<and>
          cwidth cv = videoWidth v \<and> cheight cv = videoHeight v"
  proof (cases "facingMode ?s")
    case User
    show ?thesis by (rule take_photo_user[OF v c User, of enc]) blast
  next
    case Environment
    show ?thesis by (rule take_photo_environment[OF v c Environment, of enc]) blast
  qed
  then obtain cv where cv:
    "handleTakePhoto enc ?s =
       ?s\<lparr>canvasRef := Some cv,
          capturedImage := Some (toDataURL enc ''image/jpeg'' (9 / 10) cv)\<rparr>"
    "cwidth cv = videoWidth v" "cheight cv = videoHeight v"
    by blast
  have after: "capturedImage (step enc ?s (Click Shutter)) =
                 Some (toDataURL enc ''image/jpeg'' (9 / 10) cv)"
    "canvasRef (step enc ?s (Click Shutter)) = Some cv"
    "error (step enc ?s (Click Shutter)) = None"
    using assms cv(1) no_error by (simp_all add: commit_fields)
  have captured: "view_of (step enc ?s (Click Shutter)) = CapturedView"
    using after by (simp add: view_of_def toDataURL_nonempty)
  have "videoWidth v = 0 \<or> videoHeight v = 0 \<longrightarrow>
      capturedImage (step enc ?s (Click Shutter)) = Some ''data:,''"
    using after(1) cv(2,3) by (auto simp: toDataURL_def)
  then have "\<exists>v cv. videoRef ?s = Some v \<and>
            canvasRef (step enc ?s (Click Shutter)) = Some cv \<and>
            cwidth cv = videoWidth v \<and> cheight cv = videoHeight v \<and>
            capturedImage (step enc ?s (Click Shutter)) =
              Some (toDataURL enc ''image/jpeg'' (9 / 10) cv) \<and>
            (videoWidth v = 0 \<or> videoHeight v = 0 \<longrightarrow>
               capturedImage (step enc ?s (Click Shutter)) = Some ''data:,'')"
    using v after(1,2) cv(2,3) by (intro exI[of _ v] exI[of _ cv]) simp
  then show ?thesis using no_error no_still captured by simp
qed

theorem capture_reachable_without_error_witness:
  "Shutter \<in> set (buttons (run sample_encoder [StreamGranted stream_a, VideoFrame 3 2 sample_frame])) \<and>
   error (run sample_encoder [StreamGranted stream_a, VideoFrame 3 2 sample_frame]) = None \<and>
   view_of (step sample_encoder
     (run sample_encoder [StreamGranted stream_a, VideoFrame 3 2 sample_frame])
     (Click Shutter)) = CapturedView"
proof -
  have h: "Shutter \<in> set (buttons (run sample_encoder [StreamGranted stream_a, VideoFrame 3 2 sample_frame]))"
    by (simp add: run_def component_defs browser_defs)
  show ?thesis using h capture_reachable_without_error[OF h] by simp
qed

text \<open>
  C1 as stated fails right after mount: the shutter is on screen, the video has no
  dimensions yet, and the click stores a captured image.
\<close>

theorem capture_with_zero_dimensions:
  "Shutter \<in> set (buttons (run sample_encoder [])) \<and>
   map_option videoWidth (videoRef (run sample_encoder [])) = Some 0 \<and>
   map_option videoHeight (videoRef (run sample_encoder [])) = Some 0 \<and>
   capturedImage (step sample_encoder (run sample_encoder []) (Click Shutter)) = Some ''data:,''"
  by (simp add: run_def component_defs browser_defs)




text \<open>
  C3, as amended.  Every capture that goes through leaves the canvas with exactly the
  video's native width and height (so many rows of so many pixels), and stores the result
  of \<open>toDataURL\<close> called with \<open>image/jpeg\<close> and quality \<open>0.9\<close>.  For a video whose
  width and height are both nonzero that result is the string \<open>data:image/jpeg;base64,\<close>
  followed by the payload of the encoder at those settings; for a video whose width or
  height is zero it is \<open>data:,\<close>.
\<close>

theorem capture_surface_is_video_sized_jpeg:
  assumes "videoRef s = Some v" and "canvasRef s = Some c" and "mode c \<noteq> OtherContext"
  shows "\<exists>cv. canvasRef (handleTakePhoto enc s) = Some cv \<and>
           cwidth cv = videoWidth v \<and> cheight cv = videoHeight v \<and>
           length (pixels cv) = videoHeight v \<and>
           (\<forall>row \<in> set (pixels cv). length row = videoWidth v) \<and>
           capturedImage (handleTakePhoto enc s) =
             Some (toDataURL enc ''image/jpeg'' (9 / 10) cv) \<and>
           (videoWidth v \<noteq> 0 \<and> videoHeight v \<noteq> 0 \<longrightarrow>
              capturedImage (handleTakePhoto enc s) =
                Some (''data:image/jpeg;base64,'' @ enc ''image/jpeg'' (9 / 10) (pixels cv))) \<and>
           (videoWidth v = 0 \<or> videoHeight v = 0 \<longrightarrow>
              capturedImage (handleTakePhoto enc s) = Some ''data:,'')"
proof -
  have "\<exists>cv. handleTakePhoto enc s =
            s\<lparr>canvasRef := Some cv,
              capturedImage := Some (toDataURL enc ''image/jpeg'' (9 / 10) cv)\<rparr> \<and>
          cwidth cv = videoWidth v \<and> cheight cv = videoHeight v"
  proof (cases "facingMode s")
    case User
    show ?thesis by (rule take_photo_user[OF assms User, of enc]) blast
  next
    case Environment
    show ?thesis by (rule take_photo_environment[OF assms Environment, of enc]) blast
  qed
  then obtain cv where cv:
    "handleTakePhoto enc s =
       s\<lparr>canvasRef := Some cv,
         capturedImage := Some (toDataURL enc ''image/jpeg'' (9 / 10) cv)\<rparr>"
    "cwidth cv = videoWidth v" "cheight cv = videoHeight v"
    by blast
  have "length (pixels cv) = videoHeight v" "\<forall>row \<in> set (pixels cv). length row = videoWidth v"
    using cv(2,3) by (auto simp: pixels_def)
  moreover have "videoWidth v \<noteq> 0 \<and> videoHeight v \<noteq> 0 \<longrightarrow>
      toDataURL enc ''image/jpeg'' (9 / 10) cv =
        ''data:image/jpeg;base64,'' @ enc ''image/jpeg'' (9 / 10) (pixels cv)"
    using cv(2,3) by (simp add: toDataURL_def)
  moreover have "videoWidth v = 0 \<or> videoHeight v = 0 \<longrightarrow>
      toDataURL enc ''image/jpeg'' (9 / 10) cv = ''data:,''"
    using cv(2,3) by (auto simp: toDataURL_def)
  ultimately show ?thesis using cv by (intro exI[of _ cv]) simp
qed

theorem capture_surface_is_video_sized_jpeg_witness:
  "videoRef (run sample_encoder [StreamGranted stream_a, VideoFrame 3 2 sample_frame]) =
     Some \<lparr>srcObject = Some stream_a, videoWidth = 3, videoHeight = 2, frame = sample_frame\<rparr> \<and>
   canvasRef (run sample_encoder [StreamGranted stream_a, VideoFrame 3 2 sample_frame]) =
     Some new_canvas \<and>
   mode new_canvas \<noteq> OtherContext \<and>
   (\<exists>cv. canvasRef (handleTakePhoto sample_encoder
            (run sample_encoder [StreamGranted stream_a, VideoFrame 3 2 sample_frame])) = Some cv \<and>
      cwidth cv = 3 \<and> cheight cv = 2 \<and>
      capturedImage (handleTakePhoto sample_encoder
            (run sample_encoder [StreamGranted stream_a, VideoFrame 3 2 sample_frame])) =
        Some ''data:image/jpeg;base64,/9j/'') \<and>
   videoRef mount = Some new_video \<and> canvasRef mount = Some new_canvas \<and>
   videoWidth new_video = 0 \<and>
   capturedImage (handleTakePhoto sample_encoder mount) = Some ''data:,''"
proof -
  let ?s = "run sample_encoder [StreamGranted stream_a, VideoFrame 3 2 sample_frame]"
  let ?v = "\<lparr>srcObject = Some stream_a, videoWidth = 3, videoHeight = 2, frame = sample_frame\<rparr>"
  have h1: "videoRef ?s = Some ?v"
    by (simp add: run_def component_defs new_video_def)
  have h2: "canvasRef ?s = Some new_canvas"
    by (simp add: run_def component_defs)
  have h3: "mode new_canvas \<noteq> OtherContext"
    by (simp add: new_canvas_def)
  from capture_surface_is_video_sized_jpeg[OF h1 h2 h3, of sample_encoder]
  obtain cv where cv: "canvasRef (handleTakePhoto sample_encoder ?s) = Some cv"
    "cwidth cv = 3" "cheight cv = 2"
    "capturedImage (handleTakePhoto sample_encoder ?s) =
       Some (''data:image/jpeg;base64,'' @ sample_encoder ''image/jpeg'' (9 / 10) (pixels cv))"
    by auto
  have img: "capturedImage (handleTakePhoto sample_encoder ?s) = Some ''data:image/jpeg;base64,/9j/''"
    using cv(4) by (simp add: sample_encoder_def)
  have m1: "videoRef mount = Some new_video" and m2: "canvasRef mount = Some new_canvas"
    by (simp_all add: mount_def initial_def facing_effect_def devices_effect_def)
  have z: "videoWidth new_video = 0" by (simp add: new_video_def)
  have "capturedImage (handleTakePhoto sample_encoder mount) = Some ''data:,''"
    using capture_surface_is_video_sized_jpeg[OF m1 m2 h3, of sample_encoder] z by auto
  then show ?thesis using h1 h2 h3 cv(1,2,3) img m1 m2 z by blast
qed

text \<open>
  C3 as stated fails right after mount: the capture goes through on a video without
  dimensions, the canvas becomes 0 by 0, and the stored string is \<open>data:,\<close>, which is
  not a JPEG data URL.
\<close>

theorem capture_at_mount_is_not_jpeg:
  "videoRef mount = Some new_video \<and> canvasRef mount = Some new_canvas \<and>
   mode new_canvas \<noteq> OtherContext \<and>
   map_option cwidth (canvasRef (handleTakePhoto sample_encoder mount)) = Some 0 \<and>
   map_option cheight (canvasRef (handleTakePhoto sample_encoder mount)) = Some 0 \<and>
   capturedImage (handleTakePhoto sample_encoder mount) = Some ''data:,'' \<and>
   capturedImage (handleTakePhoto sample_encoder mount) \<noteq>
     Some (''data:image/jpeg;base64,'' @ sample_encoder ''image/jpeg'' (9 / 10) [])"
  by (simp add: component_defs browser_defs Let_def)

section \<open>Switching cameras\<close>

text \<open>
  What one click on the switch button sends out: the stops of the cleanup, on the stream
  that the previous run of the effect saw; the stops of the body, on the stream of the
  current render; then the request for the other camera.
\<close>

lemma switch_camera_trace:
  assumes "SwitchCamera \<in> set (buttons s)"
  shows "trace (step enc s (Click SwitchCamera)) =
           trace s @ stop_tracks (effect_stream s) @ stop_tracks (stream s) @
           [CallGetUserMedia (if facingMode s = User then Environment else User) 1280 720]"
    and "effect_stream (step enc s (Click SwitchCamera)) = stream s"
    and "stream (step enc s (Click SwitchCamera)) = stream s"
  using assms
  by (simp_all add: commit_def sync_refs_def facing_effect_def facing_cleanup_def
      handleSwitchCamera_def split: option.splits)

text \<open>
  C4 fails on the code.  With two cameras and a first stream (one track, 11) granted, the
  first switch stops track 11 once and asks for the back camera.  A second switch before
  that request is answered stops track 11 twice more, once from the cleanup of the previous
  run of the effect and once from the body, which both still see the first stream.  The two
  streams granted afterwards replace one another in \<open>stream\<close>, and the track of the first
  of them (22) is never stopped.
\<close>

theorem rapid_switch_stops_twice_and_leaks:
  "trace (run sample_encoder
      [DevicesResolved two_cameras, StreamGranted stream_a]) =
     [CallEnumerateDevices, CallGetUserMedia User 1280 720] \<and>
   trace (run sample_encoder
      [DevicesResolved two_cameras, StreamGranted stream_a, Click SwitchCamera]) =
     [CallEnumerateDevices, CallGetUserMedia User 1280 720,
      CallTrackStop 11, CallGetUserMedia Environment 1280 720] \<and>
   stream (run sample_encoder
      [DevicesResolved two_cameras, StreamGranted stream_a, Click SwitchCamera]) =
     Some stream_a \<and>
   trace (run sample_encoder
      [DevicesResolved two_cameras, StreamGranted stream_a, Click SwitchCamera,
       Click SwitchCamera]) =
     [CallEnumerateDevices, CallGetUserMedia User 1280 720,
      CallTrackStop 11, CallGetUserMedia Environment 1280 720,
      CallTrackStop 11, CallTrackStop 11, CallGetUserMedia User 1280 720] \<and>
   stream (run sample_encoder
      [DevicesResolved two_cameras, StreamGranted stream_a, Click SwitchCamera,
       Click SwitchCamera, StreamGranted stream_b, StreamGranted stream_c]) =
     Some stream_c \<and>
   trace (run sample_encoder
      [DevicesResolved two_cameras, StreamGranted stream_a, Click SwitchCamera,
       Click SwitchCamera, StreamGranted stream_b, StreamGranted stream_c]) =
     [CallEnumerateDevices, CallGetUserMedia User 1280 720,
      CallTrackStop 11, CallGetUserMedia Environment 1280 720,
      CallTrackStop 11, CallTrackStop 11, CallGetUserMedia User 1280 720]"
  by (simp add: run_def component_defs sample_defs)

section \<open>Acquisition outcomes\<close>

lemma sync_refs_settled:
  assumes "(videoRef s \<noteq> None) = (view_of s = LiveView)"
  shows "sync_refs s = s"
  using assms by (cases "videoRef s") (auto simp: sync_refs_def)

text \<open>
  C5, as amended.  While a request is in flight: a rejection with an \<open>Error\<close> instance
  named \<open>NotAllowedError\<close> sets the permission message; a rejection with an \<open>Error\<close>
  instance of any other name sets the camera-unavailable message, which is a different
  string; a granted stream clears the error message.  A rejection with a value that is not
  an \<open>Error\<close> instance is only logged: one \<open>console.error\<close> call is made, and the error
  message, the stream, the captured image, the facing mode, the multi-camera flag, the
  canvas and the view stay as they were; in a state of a run nothing changes but the
  count of requests in flight and the trace.
\<close>

theorem acquisition_outcome_sets_error:
  assumes "pending s \<noteq> 0"
  shows "error (step enc s (StreamRejected (ErrorInstance ''NotAllowedError''))) =
           Some permission_denied_message \<and>
         (name \<noteq> ''NotAllowedError'' \<longrightarrow>
            error (step enc s (StreamRejected (ErrorInstance name))) =
              Some camera_unavailable_message) \<and>
         error (step enc s (StreamRejected NotAnError)) = error s \<and>
         error (step enc s (StreamGranted ms)) = None \<and>
         permission_denied_message \<noteq> camera_unavailable_message \<and>
         trace (step enc s (StreamRejected NotAnError)) = trace s @ [CallConsoleError] \<and>
         stream (step enc s (StreamRejected NotAnError)) = stream s \<and>
         capturedImage (step enc s (StreamRejected NotAnError)) = capturedImage s \<and>
         facingMode (step enc s (StreamRejected NotAnError)) = facingMode s \<and>
         hasMultipleCameras (step enc s (StreamRejected NotAnError)) = hasMultipleCameras s \<and>
         canvasRef (step enc s (StreamRejected NotAnError)) = canvasRef s \<and>
         view_of (step enc s (StreamRejected NotAnError)) = view_of s \<and>
         (well_formed s \<longrightarrow>
            step enc s (StreamRejected NotAnError) =
              s\<lparr>pending := pending s - 1, trace := trace s @ [CallConsoleError]\<rparr>)"
proof -
  obtain n where n: "pending s = Suc n" using assms by (cases "pending s") simp_all
  let ?r = "s\<lparr>pending := n, trace := trace s @ [CallConsoleError]\<rparr>"
  have st: "step enc s (StreamRejected NotAnError) = commit s ?r"
    using n by simp
  have same: "facingMode ?r = facingMode s" by simp
  have a: "error (step enc s (StreamRejected (ErrorInstance ''NotAllowedError''))) =
             Some permission_denied_message"
    and b: "name \<noteq> ''NotAllowedError'' \<longrightarrow>
            error (step enc s (StreamRejected (ErrorInstance name))) =
              Some camera_unavailable_message"
    and c: "error (step enc s (StreamGranted ms)) = None"
    and d: "permission_denied_message \<noteq> camera_unavailable_message"
    using n
    by (simp_all add: commit_fields stream_granted_def permission_denied_message_def
        camera_unavailable_message_def)
  have e: "error (step enc s (StreamRejected NotAnError)) = error s"
    "stream (step enc s (StreamRejected NotAnError)) = stream s"
    "capturedImage (step enc s (StreamRejected NotAnError)) = capturedImage s"
    "facingMode (step enc s (StreamRejected NotAnError)) = facingMode s"
    "hasMultipleCameras (step enc s (StreamRejected NotAnError)) = hasMultipleCameras s"
    "canvasRef (step enc s (StreamRejected NotAnError)) = canvasRef s"
    unfolding st by (simp_all add: commit_fields)
  have f: "trace (step enc s (StreamRejected NotAnError)) = trace s @ [CallConsoleError]"
    unfolding st by (simp add: commit_trace)
  have g: "view_of (step enc s (StreamRejected NotAnError)) = view_of s"
    using e(1,3) by (simp add: view_of_def)
  have h: "step enc s (StreamRejected NotAnError) =
             s\<lparr>pending := pending s - 1, trace := trace s @ [CallConsoleError]\<rparr>"
    if "well_formed s"
  proof -
    have "(videoRef ?r \<noteq> None) = (view_of ?r = LiveView)"
      using that by (simp add: well_formed_def view_of_def)
    then have "sync_refs ?r = ?r" by (rule sync_refs_settled)
    then have "commit s ?r = ?r" using same by (simp add: commit_def)
    then show ?thesis using st n by simp
  qed
  show ?thesis using a b c d e f g h by blast
qed

theorem acquisition_outcome_sets_error_witness:
  "pending mount \<noteq> 0 \<and> well_formed mount \<and>
   error (step sample_encoder mount (StreamRejected (ErrorInstance ''NotAllowedError''))) =
     Some ''Camera permission denied. Please enable it in your browser settings and refresh.'' \<and>
   error (step sample_encoder mount (StreamRejected (ErrorInstance ''NotReadableError''))) =
     Some camera_unavailable_message \<and>
   error (step sample_encoder mount (StreamGranted stream_a)) = None \<and>
   step sample_encoder mount (StreamRejected NotAnError) =
     mount\<lparr>pending := 0,
           trace := [CallEnumerateDevices, CallGetUserMedia User 1280 720, CallConsoleError]\<rparr>"
proof -
  have h: "pending mount \<noteq> 0"
    by (simp add: mount_def facing_effect_def)
  have p: "pending mount - 1 = 0"
    by (simp add: mount_def facing_effect_def initial_def devices_effect_def)
  have t: "trace mount @ [CallConsoleError] =
             [CallEnumerateDevices, CallGetUserMedia User 1280 720, CallConsoleError]"
    by (simp add: mount_plain)
  note inst = acquisition_outcome_sets_error[OF h,
        where enc = sample_encoder and name = "''NotReadableError''" and ms = stream_a]
  have r: "step sample_encoder mount (StreamRejected NotAnError) =
             mount\<lparr>pending := pending mount - 1, trace := trace mount @ [CallConsoleError]\<rparr>"
    using inst well_formed_mount by blast
  have a: "error (step sample_encoder mount (StreamRejected (ErrorInstance ''NotAllowedError''))) =
     Some permission_denied_message"
    and b: "error (step sample_encoder mount (StreamRejected (ErrorInstance ''NotReadableError''))) =
     Some camera_unavailable_message"
    and c: "error (step sample_encoder mount (StreamGranted stream_a)) = None"
    using inst by simp_all
  show ?thesis
    using h well_formed_mount a[unfolded permission_denied_message_def] b c r[unfolded p t]
    by blast
qed

text \<open>
  C5 as stated fails for a rejection value that is not an \<open>Error\<close> instance: the request
  is settled and no error message is set.
\<close>

theorem rejection_without_error_instance:
  "pending (run sample_encoder []) = 1 \<and>
   error (run sample_encoder [StreamRejected NotAnError]) = None \<and>
   pending (run sample_encoder [StreamRejected NotAnError]) = 0"
  by (simp add: run_def component_defs)

section \<open>Review screen: confirm, retake, close\<close>

lemmas surface_defs =
  Let_def new_video_def new_canvas_def set_width_def set_height_def getContext2d_def
  translate_def scale_def drawImage_def toDataURL_def identity_transform_def

lemma use_photo_only_captured:
  "UsePhoto \<in> set (buttons s) \<longleftrightarrow> view_of s = CapturedView"
  by (simp add: buttons_def view_of_def)

text \<open>
  C6.  In every state of a run the confirm button is on screen exactly in the Captured
  view.  When it is, the run has produced at least one still, the held image is the one
  produced last, and the click makes exactly one outgoing call: \<open>onPhotoTaken\<close> with
  that image.
\<close>

theorem confirm_passes_latest_still:
  "(UsePhoto \<in> set (buttons (run enc evs)) \<longleftrightarrow> view_of (run enc evs) = CapturedView) \<and>
   (UsePhoto \<in> set (buttons (run enc evs)) \<longrightarrow>
      stills enc evs \<noteq> [] \<and>
      capturedImage (run enc evs) = Some (last (stills enc evs)) \<and>
      trace (step enc (run enc evs) (Click UsePhoto)) =
        trace (run enc evs) @ [CallOnPhotoTaken (last (stills enc evs))])"
proof -
  let ?s = "run enc evs"
  have "stills enc evs \<noteq> [] \<and> capturedImage ?s = Some (last (stills enc evs)) \<and>
        trace (step enc ?s (Click UsePhoto)) =
          trace ?s @ [CallOnPhotoTaken (last (stills enc evs))]"
    if shown: "UsePhoto \<in> set (buttons ?s)"
  proof -
    have t: "truthy (capturedImage ?s)"
      using shown by (simp add: buttons_def split: if_splits)
    then have held: "stills enc evs \<noteq> []" "capturedImage ?s = Some (last (stills enc evs))"
      using latest_still[of enc evs] by simp_all
    have "last (stills enc evs) \<noteq> []" using t held(2) by simp
    then have "trace (step enc ?s (Click UsePhoto)) =
                 trace ?s @ [CallOnPhotoTaken (last (stills enc evs))]"
      using shown held(2) by (simp add: commit_trace handleConfirm_def)
    then show ?thesis using held by simp
  qed
  then show ?thesis using use_photo_only_captured[of ?s] by blast
qed

theorem confirm_passes_latest_still_witness:
  "UsePhoto \<in> set (buttons (run sample_encoder
      [Click Shutter, Click Retake, StreamGranted stream_a, VideoFrame 3 2 sample_frame,
       Click Shutter])) \<and>
   stills sample_encoder
      [Click Shutter, Click Retake, StreamGranted stream_a, VideoFrame 3 2 sample_frame,
       Click Shutter] = [''data:,'', ''data:image/jpeg;base64,/9j/''] \<and>
   trace (step sample_encoder (run sample_encoder
      [Click Shutter, Click Retake, StreamGranted stream_a, VideoFrame 3 2 sample_frame,
       Click Shutter]) (Click UsePhoto)) =
     [CallEnumerateDevices, CallGetUserMedia User 1280 720,
      CallOnPhotoTaken ''data:image/jpeg;base64,/9j/'']"
proof -
  let ?evs = "[Click Shutter, Click Retake, StreamGranted stream_a, VideoFrame 3 2 sample_frame,
       Click Shutter]"
  have h: "UsePhoto \<in> set (buttons (run sample_encoder ?evs))"
    by (simp add: run_def component_defs surface_defs sample_encoder_def)
  have st: "stills sample_encoder ?evs = [''data:,'', ''data:image/jpeg;base64,/9j/'']"
    by (simp add: stills_def component_defs surface_defs sample_encoder_def)
  have tr: "trace (run sample_encoder ?evs) =
              [CallEnumerateDevices, CallGetUserMedia User 1280 720]"
    by (simp add: run_def component_defs surface_defs sample_encoder_def)
  show ?thesis
    using h st tr confirm_passes_latest_still[of sample_encoder ?evs] by simp
qed

text \<open>
  C7.  In every state a button wired to \<open>onClose\<close> is on screen if and only if the view
  is not Captured: the Captured view shows exactly Retake and Use Photo, the Live view
  shows the close button, the Error view shows exactly the Go Back button, and \<open>onClose\<close>
  is what those two buttons call.
\<close>

theorem close_offered_unless_captured:
  "((\<exists>b \<in> set (buttons s). onClick b = PropOnClose) \<longleftrightarrow> view_of s \<noteq> CapturedView) \<and>
   (view_of s = CapturedView \<longrightarrow> buttons s = [Retake, UsePhoto]) \<and>
   (view_of s = LiveView \<longrightarrow> CloseX \<in> set (buttons s) \<and> GoBack \<notin> set (buttons s)) \<and>
   (view_of s = ErrorView \<longrightarrow> buttons s = [GoBack]) \<and>
   trace (invoke enc PropOnClose s) = trace s @ [CallOnClose]"
  by (auto simp: buttons_def view_of_def onClose_def)

theorem close_offered_unless_captured_witness:
  "view_of (run sample_encoder []) = LiveView \<and>
   CloseX \<in> set (buttons (run sample_encoder [])) \<and>
   view_of (run sample_encoder [Click Shutter]) = CapturedView \<and>
   buttons (run sample_encoder [Click Shutter]) = [Retake, UsePhoto] \<and>
   view_of (run sample_encoder [StreamRejected (ErrorInstance ''NotFoundError'')]) = ErrorView \<and>
   buttons (run sample_encoder [StreamRejected (ErrorInstance ''NotFoundError'')]) = [GoBack]"
proof -
  have live: "view_of (run sample_encoder []) = LiveView"
    by (simp add: run_def component_defs)
  have captured: "view_of (run sample_encoder [Click Shutter]) = CapturedView"
    by (simp add: run_def component_defs surface_defs)
  have failed:
    "view_of (run sample_encoder [StreamRejected (ErrorInstance ''NotFoundError'')]) = ErrorView"
    by (simp add: run_def component_defs camera_unavailable_message_def)
  show ?thesis
    using live captured failed
      close_offered_unless_captured[of "run sample_encoder []" sample_encoder]
      close_offered_unless_captured[of "run sample_encoder [Click Shutter]" sample_encoder]
      close_offered_unless_captured[of
        "run sample_encoder [StreamRejected (ErrorInstance ''NotFoundError'')]" sample_encoder]
    by simp
qed

text \<open>
  C8.  Where the Retake button is on screen, clicking it sets the captured image to null
  and shows the Live view; the stream handle, the facing mode, the error message and the
  multi-camera flag stay as they were, nothing is requested, and no outgoing call (so no
  \<open>track.stop\<close>) is made.
\<close>

theorem retake_changes_only_captured_image:
  assumes "Retake \<in> set (buttons s)"
  shows "capturedImage (step enc s (Click Retake)) = None \<and>
         view_of (step enc s (Click Retake)) = LiveView \<and>
         stream (step enc s (Click Retake)) = stream s \<and>
         facingMode (step enc s (Click Retake)) = facingMode s \<and>
         error (step enc s (Click Retake)) = error s \<and>
         hasMultipleCameras (step enc s (Click Retake)) = hasMultipleCameras s \<and>
         trace (step enc s (Click Retake)) = trace s \<and>
         pending (step enc s (Click Retake)) = pending s \<and>
         handleRetake s = s\<lparr>capturedImage := None\<rparr>"
proof -
  have e: "\<not> truthy (error s)"
    using assms by (simp add: buttons_def split: if_splits)
  show ?thesis
    using assms e
    by (simp add: commit_fields commit_trace handleRetake_def view_of_def commit_def
        sync_refs_def split: option.splits)
qed

theorem retake_changes_only_captured_image_witness:
  "Retake \<in> set (buttons (run sample_encoder
      [StreamGranted stream_a, VideoFrame 3 2 sample_frame, Click Shutter])) \<and>
   capturedImage (run sample_encoder
      [StreamGranted stream_a, VideoFrame 3 2 sample_frame, Click Shutter]) =
     Some ''data:image/jpeg;base64,/9j/'' \<and>
   capturedImage (step sample_encoder (run sample_encoder
      [StreamGranted stream_a, VideoFrame 3 2 sample_frame, Click Shutter]) (Click Retake)) =
     None \<and>
   stream (step sample_encoder (run sample_encoder
      [StreamGranted stream_a, VideoFrame 3 2 sample_frame, Click Shutter]) (Click Retake)) =
     Some stream_a \<and>
   trace (step sample_encoder (run sample_encoder
      [StreamGranted stream_a, VideoFrame 3 2 sample_frame, Click Shutter]) (Click Retake)) =
     [CallEnumerateDevices, CallGetUserMedia User 1280 720]"
proof -
  let ?s = "run sample_encoder [StreamGranted stream_a, VideoFrame 3 2 sample_frame, Click Shutter]"
  have h: "Retake \<in> set (buttons ?s)"
    by (simp add: run_def component_defs surface_defs sample_encoder_def)
  have img: "capturedImage ?s = Some ''data:image/jpeg;base64,/9j/''"
    by (simp add: run_def component_defs surface_defs sample_encoder_def)
  have st: "stream ?s = Some stream_a"
    by (simp add: run_def component_defs surface_defs sample_encoder_def)
  have tr: "trace ?s = [CallEnumerateDevices, CallGetUserMedia User 1280 720]"
    by (simp add: run_def component_defs surface_defs sample_encoder_def)
  have r: "capturedImage (step sample_encoder ?s (Click Retake)) = None"
    "stream (step sample_encoder ?s (Click Retake)) = stream ?s"
    "trace (step sample_encoder ?s (Click Retake)) = trace ?s"
    using retake_changes_only_captured_image[OF h, of sample_encoder] by blast+
  show ?thesis
    using h img r(1) r(2)[unfolded st] r(3)[unfolded tr] by blast
qed

section \<open>What is on screen\<close>

lemma truthy_value_run:
  "truthy_value (error (run enc evs)) = error (run enc evs)"
  "truthy_value (capturedImage (run enc evs)) = capturedImage (run enc evs)"
proof -
  have wf: "well_formed (run enc evs)" by (rule well_formed_run)
  show "truthy_value (error (run enc evs)) = error (run enc evs)"
    using wf by (cases "error (run enc evs)") (simp_all add: well_formed_def)
  show "truthy_value (capturedImage (run enc evs)) = capturedImage (run enc evs)"
    using wf by (cases "capturedImage (run enc evs)") (simp_all add: well_formed_def)
qed

lemma truthy_run:
  "truthy (error (run enc evs)) \<longleftrightarrow> error (run enc evs) \<noteq> None"
  "truthy (capturedImage (run enc evs)) \<longleftrightarrow> capturedImage (run enc evs) \<noteq> None"
proof -
  have wf: "well_formed (run enc evs)" by (rule well_formed_run)
  show "truthy (error (run enc evs)) \<longleftrightarrow> error (run enc evs) \<noteq> None"
    using wf by (cases "error (run enc evs)") (simp_all add: well_formed_def)
  show "truthy (capturedImage (run enc evs)) \<longleftrightarrow> capturedImage (run enc evs) \<noteq> None"
    using wf by (cases "capturedImage (run enc evs)") (simp_all add: well_formed_def)
qed

text \<open>
  C9.  In every state of a run the preview area holds one pane, chosen by priority: the
  error message when one is set, otherwise the captured image when one is held, otherwise
  the live video.  So the video is shown exactly when neither is set, and the \<open>video\<close>
  element is mounted exactly then.
\<close>

theorem one_pane_by_priority:
  "main_pane (run enc evs) =
     (case error (run enc evs) of
        Some msg \<Rightarrow> ErrorPane msg
      | None \<Rightarrow>
          (case capturedImage (run enc evs) of
             Some img \<Rightarrow> ImagePane img
           | None \<Rightarrow> VideoPane)) \<and>
   (main_pane (run enc evs) = VideoPane \<longleftrightarrow>
      error (run enc evs) = None \<and> capturedImage (run enc evs) = None) \<and>
   (videoRef (run enc evs) \<noteq> None \<longleftrightarrow> main_pane (run enc evs) = VideoPane)"
proof -
  let ?s = "run enc evs"
  have p: "main_pane ?s =
     (case error ?s of
        Some msg \<Rightarrow> ErrorPane msg
      | None \<Rightarrow> (case capturedImage ?s of Some img \<Rightarrow> ImagePane img | None \<Rightarrow> VideoPane))"
    unfolding main_pane_def truthy_value_run by (rule refl)
  have q: "main_pane ?s = VideoPane \<longleftrightarrow> error ?s = None \<and> capturedImage ?s = None"
    by (simp add: p split: option.splits)
  have wf: "well_formed ?s" by (rule well_formed_run)
  have "view_of ?s = LiveView \<longleftrightarrow> error ?s = None \<and> capturedImage ?s = None"
    by (simp add: view_of_def truthy_run)
  then have r: "videoRef ?s \<noteq> None \<longleftrightarrow> main_pane ?s = VideoPane"
    using wf q by (simp add: well_formed_def)
  show ?thesis using p q r by blast
qed

theorem one_pane_by_priority_witness:
  "main_pane (run sample_encoder [Click Shutter, StreamRejected (ErrorInstance ''NotAllowedError'')])
     = ErrorPane permission_denied_message \<and>
   capturedImage (run sample_encoder [Click Shutter, StreamRejected (ErrorInstance ''NotAllowedError'')])
     = Some ''data:,'' \<and>
   main_pane (run sample_encoder [Click Shutter]) = ImagePane ''data:,'' \<and>
   main_pane (run sample_encoder []) = VideoPane"
proof -
  have e: "error (run sample_encoder [Click Shutter, StreamRejected (ErrorInstance ''NotAllowedError'')])
             = Some permission_denied_message"
    and i: "capturedImage (run sample_encoder [Click Shutter, StreamRejected (ErrorInstance ''NotAllowedError'')])
             = Some ''data:,''"
    by (simp_all add: run_def component_defs surface_defs)
  have e1: "error (run sample_encoder [Click Shutter]) = None"
    and i1: "capturedImage (run sample_encoder [Click Shutter]) = Some ''data:,''"
    by (simp_all add: run_def component_defs surface_defs)
  have e0: "error (run sample_encoder []) = None"
    and i0: "capturedImage (run sample_encoder []) = None"
    by (simp_all add: run_def component_defs)
  show ?thesis
    using one_pane_by_priority[of sample_encoder
        "[Click Shutter, StreamRejected (ErrorInstance ''NotAllowedError'')]"]
      one_pane_by_priority[of sample_encoder "[Click Shutter]"]
      one_pane_by_priority[of sample_encoder "[]"]
    by (simp add: e i e1 i1 e0 i0)
qed

text \<open>
  C10.  Without a captured image (null, or in general a falsy one) \<open>handleConfirm\<close>
  changes nothing and calls nothing.  Over every run, each call of \<open>onPhotoTaken\<close> carries
  a non-empty string that an earlier capture of the same run produced.
\<close>

theorem confirm_needs_a_captured_image:
  "(capturedImage s = None \<longrightarrow> handleConfirm s = s) \<and>
   (\<not> truthy (capturedImage s) \<longrightarrow> handleConfirm s = s) \<and>
   (\<forall>img. CallOnPhotoTaken img \<in> set (trace (run enc evs)) \<longrightarrow>
      img \<noteq> [] \<and> img \<in> set (stills enc evs))"
proof -
  have "\<not> truthy (capturedImage s) \<longrightarrow> handleConfirm s = s"
    by (cases "capturedImage s") (simp_all add: handleConfirm_def)
  moreover have "capturedImage s = None \<longrightarrow> handleConfirm s = s"
    by (simp add: handleConfirm_def)
  ultimately show ?thesis using latest_still[of enc evs] by blast
qed

theorem confirm_needs_a_captured_image_witness:
  "capturedImage mount = None \<and> handleConfirm mount = mount \<and>
   CallOnPhotoTaken ''data:,'' \<in> set (trace (run sample_encoder [Click Shutter, Click UsePhoto])) \<and>
   ''data:,'' \<in> set (stills sample_encoder [Click Shutter, Click UsePhoto])"
proof -
  have n: "capturedImage mount = None"
    by (simp add: mount_plain)
  have c: "CallOnPhotoTaken ''data:,'' \<in> set (trace (run sample_encoder [Click Shutter, Click UsePhoto]))"
    by (simp add: run_def component_defs surface_defs)
  show ?thesis
    using n c confirm_needs_a_captured_image[of mount sample_encoder "[Click Shutter, Click UsePhoto]"]
    by blast
qed

end
